theory Spec2Isabelle
  imports Main "HOL-Library.Sublist" "HOL-Library.Multiset"
begin

section \<open>Strings\<close>

text \<open>
  A JavaScript string is a sequence of UTF-16 code units and \<open>length\<close> counts code units.
  The model uses \<^typ>\<open>string\<close>, whose characters are the 256 code units U+0000 to U+00FF
  (ASCII and Latin-1): one \<^typ>\<open>char\<close> is one code unit, so lengths agree with the
  source on this range, and \<open>toLowerCase\<close> maps the range into itself.
\<close>

definition isWhiteSpace :: "char \<Rightarrow> bool" where
  \<comment> \<open>the code units below 256 that the regular expression class \<open>\s\<close> and \<open>trim\<close> treat as
      white space: TAB, LF, VT, FF, CR, SPACE and NO-BREAK SPACE\<close>
  "isWhiteSpace c = ((of_char c :: nat) \<in> {9, 10, 11, 12, 13, 32, 160})"

definition isUpperCase :: "char \<Rightarrow> bool" where
  \<comment> \<open>A to Z, and the Latin-1 capitals U+00C0 to U+00DE without the multiplication sign\<close>
  "isUpperCase c = (let n = (of_char c :: nat) in
     (65 \<le> n \<and> n \<le> 90) \<or> (192 \<le> n \<and> n \<le> 222 \<and> n \<noteq> 215))"

definition lowerChar :: "char \<Rightarrow> char" where
  \<comment> \<open>the small letter of a capital is 32 code units later: bit 5 is set\<close>
  "lowerChar c = (if isUpperCase c
     then (case c of Char b0 b1 b2 b3 b4 b5 b6 b7 \<Rightarrow> Char b0 b1 b2 b3 b4 True b6 b7)
     else c)"

definition toLowerCase :: "string \<Rightarrow> string" where
  "toLowerCase s = map lowerChar s"

definition trim :: "string \<Rightarrow> string" where
  "trim s = rev (dropWhile isWhiteSpace (rev (dropWhile isWhiteSpace s)))"

definition startsWith :: "string \<Rightarrow> string \<Rightarrow> bool" where
  \<comment> \<open>\<open>s.startsWith(p)\<close>\<close>
  "startsWith p s = prefix p s"

definition includes_str :: "string \<Rightarrow> string \<Rightarrow> bool" where
  \<comment> \<open>\<open>s.includes(k)\<close>: \<open>k\<close> occurs in \<open>s\<close> as a contiguous run\<close>
  "includes_str k s = sublist k s"

fun join :: "string \<Rightarrow> string list \<Rightarrow> string" where
  "join sep [] = []"
| "join sep [x] = x"
| "join sep (x # y # ys) = x @ sep @ join sep (y # ys)"

definition consHead :: "char \<Rightarrow> string list \<Rightarrow> string list" where
  \<comment> \<open>puts one more character in front of the first piece of a split\<close>
  "consHead x r = (case r of [] \<Rightarrow> [[x]] | y # ys \<Rightarrow> (x # y) # ys)"

fun splitOn :: "char \<Rightarrow> string \<Rightarrow> string list" where
  \<comment> \<open>\<open>s.split(c)\<close> for a one-character separator: empty pieces are kept\<close>
  "splitOn c [] = [[]]"
| "splitOn c (x # xs) = (if x = c then [] # splitOn c xs else consHead x (splitOn c xs))"

text \<open>
  \<open>s.split(/\s+/)\<close>: the scan tries the expression at every position in turn; at a
  white-space character it matches the whole run of white space, closes the current piece and
  goes on after the run. Empty pieces at the start and at the end are kept.
\<close>

function splitWs :: "string \<Rightarrow> string list" where
  "splitWs [] = [[]]"
| "splitWs (x # xs) =
     (if isWhiteSpace x then [] # splitWs (dropWhile isWhiteSpace xs)
      else consHead x (splitWs xs))"
  by pat_completeness auto
termination
  by (relation "measure length") (auto simp: length_dropWhile_le less_Suc_eq_le)

text \<open>
  \<open>s.split(/\n\s*\n/)\<close>: the expression matches at a line feed when the run of white space
  after it holds another line feed; \<open>\s*\<close> is greedy, so the match ends with the last line
  feed of that run, and what follows it (white space without a line feed, then the rest)
  starts the next piece.
\<close>

definition afterLastLF :: "string \<Rightarrow> string" where
  "afterLastLF xs =
     (let run = takeWhile isWhiteSpace xs;
          trailing = takeWhile (\<lambda>c. c \<noteq> CHR 0x0A) (rev run)
      in drop (length run - length trailing) xs)"

function splitPara :: "string \<Rightarrow> string list" where
  "splitPara [] = [[]]"
| "splitPara (x # xs) =
     (if x = CHR 0x0A \<and> CHR 0x0A \<in> set (takeWhile isWhiteSpace xs)
      then [] # splitPara (afterLastLF xs)
      else consHead x (splitPara xs))"
  by pat_completeness auto
termination
  by (relation "measure length") (auto simp: afterLastLF_def Let_def)

section \<open>document-utils.ts: chunkDocument\<close>

text \<open>
  The loop over the words of a long paragraph and the loop over the paragraphs both carry
  the pair \<open>(chunks, currentChunk)\<close>; a JavaScript string is truthy when it is not empty.
  \<open>chunkSize\<close> is an integer, and may be zero or negative.
\<close>

definition packWord :: "int \<Rightarrow> string list \<times> string \<Rightarrow> string \<Rightarrow> string list \<times> string" where
  "packWord chunkSize st word =
     (case st of (chunks, currentChunk) \<Rightarrow>
        if int (length (currentChunk @ '' '' @ word)) \<le> chunkSize
        then (chunks, currentChunk @ (if currentChunk \<noteq> [] then '' '' else []) @ word)
        else (if currentChunk \<noteq> [] then chunks @ [currentChunk] else chunks, word))"

definition packParagraph :: "int \<Rightarrow> string list \<times> string \<Rightarrow> string \<Rightarrow> string list \<times> string" where
  "packParagraph chunkSize st paragraph =
     (case st of (chunks, currentChunk) \<Rightarrow>
        if int (length paragraph) > chunkSize
        then foldl (packWord chunkSize) (chunks, currentChunk) (splitWs paragraph)
        else if int (length (currentChunk @ ''\<newline>\<newline>'' @ paragraph)) \<le> chunkSize
        then (chunks, currentChunk @ (if currentChunk \<noteq> [] then ''\<newline>\<newline>'' else []) @ paragraph)
        else (if currentChunk \<noteq> [] then chunks @ [currentChunk] else chunks, paragraph))"

definition chunkDocument :: "string \<Rightarrow> int \<Rightarrow> string list" where
  "chunkDocument content chunkSize =
     (if int (length content) < chunkSize then [content]
      else (case foldl (packParagraph chunkSize) ([], []) (splitPara content) of
              (chunks, currentChunk) \<Rightarrow>
                if currentChunk \<noteq> [] then chunks @ [currentChunk] else chunks))"

section \<open>Documents and chat messages\<close>

text \<open>
  \<open>ProcessedDocument\<close> of document-utils.ts, without the optional summary, the creation
  date and the optional source, which none of the functions below reads.
\<close>

record processedDocument =
  docId :: string
  name :: string
  content :: string
  extension :: string
  chunks :: "string list"

datatype role = User | Assistant | System

record chatMessage =
  role :: role
  content :: string

section \<open>Keyword extraction and relevance ranking\<close>

text \<open>
  Both services hold the same \<open>extractKeywords\<close> and \<open>findRelevantChunks\<close>, character for
  character; one definition stands for both.

  The stop words are kept as lists of code units: six of them hold a letter above U+00FF
  (\<open>351\<close>, \<open>305\<close>, \<open>287\<close>), which no \<^typ>\<open>char\<close> stands for, so that none of these six
  equals a word of the model.
\<close>

definition codeUnits :: "string \<Rightarrow> nat list" where
  "codeUnits s = map of_char s"

definition stopwords :: "nat list list" where
  "stopwords =
     [codeUnits ''bir'', codeUnits ''ve'', codeUnits ''veya'', codeUnits ''da'',
      codeUnits ''de'', codeUnits ''bu'', [351, 117], codeUnits ''o'',
      [105, 231, 105, 110], codeUnits ''ile'', codeUnits ''gibi'', codeUnits ''kadar'',
      codeUnits ''mi'', [109, 305], codeUnits ''mu'', [109, 252], codeUnits ''ne'',
      [110, 97, 115, 305, 108], codeUnits ''neden'', codeUnits ''hangi'', codeUnits ''kim'',
      codeUnits ''kime'', codeUnits ''nerede'', codeUnits ''ne zaman'', codeUnits ''acaba'',
      codeUnits ''belki'', codeUnits ''evet'', [104, 97, 121, 305, 114], codeUnits ''tamam'',
      [100, 101, 287, 105, 108], codeUnits ''var'', codeUnits ''yok'']"

definition punctuation :: string where
  \<comment> \<open>the characters of the class in \<open>replace(/[.,\/#!$%\^&\*;:{}=\-_`~()]/g, "")\<close>\<close>
  "punctuation = ''.,/#!$%^&*;:{}=-_'' @ [CHR 0x60] @ ''~()''"

definition stripPunctuation :: "string \<Rightarrow> string" where
  "stripPunctuation s = filter (\<lambda>c. c \<notin> set punctuation) s"

definition extractKeywords :: "string \<Rightarrow> string list" where
  "extractKeywords text =
     (let words = splitWs (stripPunctuation (toLowerCase text))
      in filter (\<lambda>word. length word > 3 \<and> codeUnits word \<notin> set stopwords) words)"

record scoredChunk =
  chunk :: string
  score :: int
  index :: nat

definition scoreChunk :: "string list \<Rightarrow> string \<Rightarrow> int" where
  \<comment> \<open>the \<open>reduce\<close> over the keywords, from 0\<close>
  "scoreChunk keywords c =
     foldl (\<lambda>acc keyword.
              acc + (if includes_str (toLowerCase keyword) (toLowerCase c) then 1 else 0))
           0 keywords"

definition scoredChunks :: "string list \<Rightarrow> string list \<Rightarrow> scoredChunk list" where
  "scoredChunks keywords cs =
     map (\<lambda>(i, c). \<lparr>chunk = c, score = scoreChunk keywords c, index = i\<rparr>) (enumerate 0 cs)"

definition compareScored :: "scoredChunk \<Rightarrow> scoredChunk \<Rightarrow> int" where
  \<comment> \<open>the comparator given to \<open>sort\<close>: negative when \<open>a\<close> comes first\<close>
  "compareScored a b =
     (if score b \<noteq> score a then score b - score a else int (index a) - int (index b))"

text \<open>
  \<open>Array.prototype.sort\<close> with a comparator, as a stable insertion sort: an element goes in
  front of the first element it does not compare greater than.
\<close>

fun insertBy :: "('a \<Rightarrow> 'a \<Rightarrow> int) \<Rightarrow> 'a \<Rightarrow> 'a list \<Rightarrow> 'a list" where
  "insertBy cmp x [] = [x]"
| "insertBy cmp x (y # ys) = (if cmp x y \<le> 0 then x # y # ys else y # insertBy cmp x ys)"

definition sortBy :: "('a \<Rightarrow> 'a \<Rightarrow> int) \<Rightarrow> 'a list \<Rightarrow> 'a list" where
  "sortBy cmp xs = foldr (insertBy cmp) xs []"

text \<open>
  \<open>maxChunks\<close> is a count: the method is private and its one caller passes 3, and
  \<open>slice(0, n)\<close> keeps the first \<open>n\<close> elements.
\<close>

definition findRelevantChunks :: "processedDocument option \<Rightarrow> string \<Rightarrow> nat \<Rightarrow> string list" where
  "findRelevantChunks document query maxChunks =
     (case document of
        None \<Rightarrow> []
      | Some d \<Rightarrow>
          if chunks d = [] then []
          else let keywords = extractKeywords query
               in if keywords = [] then take maxChunks (chunks d)
                  else map chunk (take maxChunks
                         (sortBy compareScored (scoredChunks keywords (chunks d)))))"

definition distinctMatches :: "string list \<Rightarrow> string \<Rightarrow> nat" where
  \<comment> \<open>the specification's score: how many different keywords the chunk holds, whatever
      the case of the letters\<close>
  "distinctMatches keywords c =
     card {k \<in> set keywords. includes_str (toLowerCase k) (toLowerCase c)}"

section \<open>Prompt assembly\<close>

definition createSystemPrompt :: "processedDocument option \<Rightarrow> string" where
  "createSystemPrompt document =
     (case document of
        None \<Rightarrow> ''Help the user with their questions.''
      | Some d \<Rightarrow>
          ''You are a document assistant. Based on the following document, answer the user's questions:''
          @ ''\<newline>    \<newline>Document: \"'' @ name d @ ''\"\<newline>\<newline>''
          @ ''Follow these rules in your answers:\<newline>''
          @ ''1. If the answer to the question is not in the document, honestly say you don't know and don't make up information outside the document.\<newline>''
          @ ''2. Only answer based on the information in the document.\<newline>''
          @ ''3. In your answers, refer to the information in the document.\<newline>''
          @ ''4. If needed, make clear explanations and summaries.\<newline>''
          @ ''5. If you can't help with a topic that is not in the document, say so.'')"

definition sliceLast :: "nat \<Rightarrow> 'a list \<Rightarrow> 'a list" where
  \<comment> \<open>\<open>xs.slice(-n)\<close> for a positive \<open>n\<close>: the last \<open>n\<close> elements, all of them when there
      are fewer\<close>
  "sliceLast n xs = drop (length xs - n) xs"

definition appendExchange :: "chatMessage list \<Rightarrow> string \<Rightarrow> string \<Rightarrow> chatMessage list" where
  \<comment> \<open>the end of a generation in both services: push the pair, then keep the last 10\<close>
  "appendExchange history userQuestion fullResponse =
     (let h = history @ [\<lparr>role = User, content = userQuestion\<rparr>,
                         \<lparr>role = Assistant, content = fullResponse\<rparr>]
      in if length h > 10 then sliceLast 10 h else h)"

section \<open>Errors and outcomes\<close>

datatype error =
    DocumentNotSet      \<comment> \<open>"Document not set. Please call setDocument() first."\<close>
  | ModelNotLoaded      \<comment> \<open>the local service's "model not loaded yet" error\<close>
  | TypeError           \<comment> \<open>reading \<open>content\<close> of the last message of an empty array\<close>
  | FetchRejected       \<comment> \<open>\<open>fetch\<close> rejects\<close>
  | BodyUnreadable      \<comment> \<open>\<open>response.json()\<close> rejects on an error response\<close>
  | ApiError string     \<comment> \<open>the error response's message, or "API response not received"\<close>
  | StreamNotRead       \<comment> \<open>the response has no body\<close>
  | ReadRejected        \<comment> \<open>\<open>reader.read()\<close> rejects\<close>
  | GenerationFailed    \<comment> \<open>the local service's one error for everything caught\<close>

text \<open>
  What a call of \<open>generateResponse\<close> leaves behind: the string it returns or the error it
  throws, the service after the call, the message sequences it handed to the transport (the
  HTTP endpoint or the engine), and the fragments it passed to \<open>onUpdate\<close>, in order.
\<close>

record 'svc outcome =
  result :: "error + string"
  after :: 'svc
  requests :: "chatMessage list list"
  updates :: "string list"

section \<open>openai-service.ts\<close>

text \<open>
  The fields \<open>apiKey\<close>, \<open>model\<close> and \<open>temperature\<close> only fill the request's header and body
  and are left out.
\<close>

record openAIService =
  document :: "processedDocument option"
  chatHistory :: "chatMessage list"

definition setDocument :: "processedDocument \<Rightarrow> openAIService \<Rightarrow> openAIService" where
  "setDocument d svc = svc\<lparr>document := Some d, chatHistory := []\<rparr>"

text \<open>
  The world a call meets. \<open>fetch\<close> rejects, or gives a response that is not ok (whose JSON
  body cannot be read, or holds an error message or none), or an ok response without a body,
  or an ok response whose reader yields decoded pieces of text until it is done or rejects.
  The reads form a finite list: a call whose stream never ends neither returns nor throws.
\<close>

datatype readResult = Value string | ReadRejects

datatype fetchResult =
    FetchRejects
  | NotOkUnreadable
  | NotOk "string option"
  | OkNoBody
  | OkBody "readResult list"

definition sseLines :: "string \<Rightarrow> string list" where
  "sseLines piece =
     filter (\<lambda>line. trim line \<noteq> [] \<and> trim line \<noteq> ''data: [DONE]'')
            (splitOn CHR 0x0A piece)"

text \<open>
  \<open>deltaContent\<close> stands for \<open>JSON.parse\<close> followed by \<open>json.choices[0]?.delta?.content || ""\<close>:
  \<open>None\<close> when that throws. \<open>onUpdate\<close> is called inside the same \<open>try\<close>, after the fragment
  is appended, so an \<open>onUpdate\<close> that throws is caught there and changes nothing.
\<close>

definition processLine ::
  "(string \<Rightarrow> string option) \<Rightarrow> string \<times> string list \<Rightarrow> string \<Rightarrow> string \<times> string list" where
  "processLine deltaContent acc line =
     (case acc of (fullResponse, ups) \<Rightarrow>
        if startsWith ''data: '' line
        then (case deltaContent (drop 6 line) of
                None \<Rightarrow> (fullResponse, ups)
              | Some c \<Rightarrow> if c \<noteq> [] then (fullResponse @ c, ups @ [c]) else (fullResponse, ups))
        else (fullResponse, ups))"

fun readLoop ::
  "(string \<Rightarrow> string option) \<Rightarrow> readResult list \<Rightarrow> string \<times> string list
     \<Rightarrow> error option \<times> string \<times> string list" where
  "readLoop deltaContent [] acc = (None, acc)"
| "readLoop deltaContent (ReadRejects # rs) acc = (Some ReadRejected, acc)"
| "readLoop deltaContent (Value v # rs) acc =
     readLoop deltaContent rs (foldl (processLine deltaContent) acc (sseLines v))"

definition apiMessages :: "openAIService \<Rightarrow> string \<Rightarrow> chatMessage list" where
  "apiMessages svc userQuestion =
     (let relevantChunks = findRelevantChunks (document svc) userQuestion 3;
          context = join ''\<newline>\<newline>'' relevantChunks;
          systemMessage = \<lparr>role = System, content = createSystemPrompt (document svc)\<rparr>;
          userContextMessage = \<lparr>role = User, content =
            ''Document content:\<newline>'' @ context @ ''\<newline>\<newline>Question: '' @ userQuestion\<rparr>
      in [systemMessage]
         @ (if chatHistory svc \<noteq> [] then sliceLast 6 (chatHistory svc) else [])
         @ [userContextMessage])"

definition generateResponse ::
  "(string \<Rightarrow> string option) \<Rightarrow> fetchResult \<Rightarrow> openAIService \<Rightarrow> chatMessage list
     \<Rightarrow> openAIService outcome" where
  "generateResponse deltaContent net svc messages =
     (case document svc of
        None \<Rightarrow> \<lparr>result = Inl DocumentNotSet, after = svc, requests = [], updates = []\<rparr>
      | Some d \<Rightarrow>
          if messages = []
          then \<lparr>result = Inl TypeError, after = svc, requests = [], updates = []\<rparr>
          else
            let userQuestion = content (last messages);
                msgs = apiMessages svc userQuestion
            in (case net of
                  FetchRejects \<Rightarrow>
                    \<lparr>result = Inl FetchRejected, after = svc, requests = [msgs], updates = []\<rparr>
                | NotOkUnreadable \<Rightarrow>
                    \<lparr>result = Inl BodyUnreadable, after = svc, requests = [msgs], updates = []\<rparr>
                | NotOk m \<Rightarrow>
                    \<lparr>result = Inl (ApiError (case m of
                                 None \<Rightarrow> ''API response not received''
                               | Some t \<Rightarrow> if t \<noteq> [] then t else ''API response not received'')),
                     after = svc, requests = [msgs], updates = []\<rparr>
                | OkNoBody \<Rightarrow>
                    \<lparr>result = Inl StreamNotRead, after = svc, requests = [msgs], updates = []\<rparr>
                | OkBody reads \<Rightarrow>
                    (case readLoop deltaContent reads ([], []) of
                       (Some e, fullResponse, ups) \<Rightarrow>
                         \<lparr>result = Inl e, after = svc, requests = [msgs], updates = ups\<rparr>
                     | (None, fullResponse, ups) \<Rightarrow>
                         \<lparr>result = Inr fullResponse,
                          after = svc\<lparr>chatHistory :=
                                    appendExchange (chatHistory svc) userQuestion fullResponse\<rparr>,
                          requests = [msgs], updates = ups\<rparr>)))"

section \<open>The local service (WebLLMService)\<close>

text \<open>
  \<open>engine\<close> says whether the engine field holds an engine. The callbacks and the promise of
  \<open>init\<close> are left out.
\<close>

record webLLMService =
  engine :: bool
  isInitialized :: bool
  document :: "processedDocument option"
  chatHistory :: "chatMessage list"

definition WebLLM_setDocument :: "processedDocument \<Rightarrow> webLLMService \<Rightarrow> webLLMService" where
  "WebLLM_setDocument d svc = svc\<lparr>document := Some d, chatHistory := []\<rparr>"

text \<open>
  The engine's \<open>create\<close> rejects, or gives a stream; a stream item carries its delta (the
  empty string when it has none), or reading it throws.
\<close>

datatype streamItem = Delta string | ItemThrows

datatype engineResult = CreateRejects | Stream "streamItem list"

text \<open>
  \<open>onUpdateOk c\<close> says that \<open>onUpdate(c)\<close> returns; when it throws, the fragment is already
  appended and the loop is left through the \<open>catch\<close>. The first component of the result says
  whether the loop ran to the end of the stream.
\<close>

fun streamLoop ::
  "(string \<Rightarrow> bool) \<Rightarrow> streamItem list \<Rightarrow> string \<times> string list \<Rightarrow> bool \<times> string \<times> string list" where
  "streamLoop onUpdateOk [] acc = (True, acc)"
| "streamLoop onUpdateOk (ItemThrows # rest) acc = (False, acc)"
| "streamLoop onUpdateOk (Delta c # rest) (response, ups) =
     (if onUpdateOk c then streamLoop onUpdateOk rest (response @ c, ups @ [c])
      else (False, response @ c, ups @ [c]))"

text \<open>
  The user message of this service starts with a Turkish label (\<open>Belge icerigi:\<close>, written
  with the letters U+00E7 and U+011F). U+011F is above U+00FF, so the label is the parameter
  \<open>label\<close>.
\<close>

definition augmentedMessages :: "string \<Rightarrow> webLLMService \<Rightarrow> string \<Rightarrow> chatMessage list" where
  "augmentedMessages label svc userQuestion =
     (let relevantChunks = findRelevantChunks (document svc) userQuestion 3;
          context = join ''\<newline>\<newline>'' relevantChunks;
          baseMessages =
            [\<lparr>role = System, content = createSystemPrompt (document svc)\<rparr>,
             \<lparr>role = User, content =
                label @ ''\<newline>'' @ context @ ''\<newline>\<newline>Sorum: '' @ userQuestion\<rparr>]
      in baseMessages
         @ (if chatHistory svc \<noteq> [] then sliceLast 6 (chatHistory svc) else []))"

definition WebLLM_generateResponse ::
  "string \<Rightarrow> (string \<Rightarrow> bool) \<Rightarrow> engineResult \<Rightarrow> webLLMService \<Rightarrow> chatMessage list
     \<Rightarrow> webLLMService outcome" where
  "WebLLM_generateResponse label onUpdateOk eng svc messages =
     (if \<not> isInitialized svc \<or> \<not> engine svc
      then \<lparr>result = Inl ModelNotLoaded, after = svc, requests = [], updates = []\<rparr>
      else (case document svc of
        None \<Rightarrow> \<lparr>result = Inl DocumentNotSet, after = svc, requests = [], updates = []\<rparr>
      | Some d \<Rightarrow>
          if messages = []
          then \<lparr>result = Inl GenerationFailed, after = svc, requests = [], updates = []\<rparr>
          else
            let userQuestion = content (last messages);
                msgs = augmentedMessages label svc userQuestion
            in (case eng of
                  CreateRejects \<Rightarrow>
                    \<lparr>result = Inl GenerationFailed, after = svc, requests = [msgs], updates = []\<rparr>
                | Stream items \<Rightarrow>
                    (case streamLoop onUpdateOk items ([], []) of
                       (False, response, ups) \<Rightarrow>
                         \<lparr>result = Inl GenerationFailed, after = svc, requests = [msgs],
                          updates = ups\<rparr>
                     | (True, response, ups) \<Rightarrow>
                         \<lparr>result = Inr response,
                          after = svc\<lparr>chatHistory :=
                                    appendExchange (chatHistory svc) userQuestion response\<rparr>,
                          requests = [msgs], updates = ups\<rparr>))))"

section \<open>Parsing the key topics\<close>

text \<open>
  The end of \<open>extractKeyTopics\<close>, the same in both services, as a function of the text of the
  model's answer. The callback of \<open>filter\<close> returns a string, kept when truthy, that is, not
  empty; \<open>filter\<close> keeps or drops the trimmed line itself.
\<close>

definition stripListMarker :: "string \<Rightarrow> string" where
  \<comment> \<open>\<open>line.replace(/^-\s*/, "")\<close>\<close>
  "stripListMarker line =
     (case line of [] \<Rightarrow> [] | c # rest \<Rightarrow>
        if c = CHR ''-'' then dropWhile isWhiteSpace rest else line)"

definition topicCallback :: "string \<Rightarrow> string" where
  "topicCallback line =
     (if line \<noteq> [] \<and> \<not> startsWith ''-'' line then stripListMarker line else line)"

definition extractKeyTopics :: "string \<Rightarrow> string list" where
  "extractKeyTopics topicsText =
     filter (\<lambda>line. topicCallback line \<noteq> []) (map trim (splitOn CHR 0x0A topicsText))"

definition keyTopicsAsSpecified :: "string \<Rightarrow> string list" where
  \<comment> \<open>the specification's parse: split on line feeds, trim, strip a leading list marker;
      empty lines stay\<close>
  "keyTopicsAsSpecified topicsText =
     map (\<lambda>line. stripListMarker (trim line)) (splitOn CHR 0x0A topicsText)"

section \<open>Words and chunk sizes\<close>

text \<open>
  The words of a text are its maximal runs of characters that are not white space. A state
  of the chunking loops holds the words of its chunks followed by those of the current chunk.
  A chunk fits when it is no longer than the chunk size or is one of the words of the text.
\<close>

definition wordsOf :: "string \<Rightarrow> string list" where
  "wordsOf s = filter (\<lambda>w. w \<noteq> []) (splitWs s)"

definition wordsOfState :: "string list \<times> string \<Rightarrow> string list" where
  "wordsOfState st = concat (map wordsOf (fst st)) @ wordsOf (snd st)"

definition fits :: "int \<Rightarrow> string set \<Rightarrow> string \<Rightarrow> bool" where
  "fits n W c = (int (length c) \<le> n \<or> c \<in> W)"

definition fitsState :: "int \<Rightarrow> string set \<Rightarrow> string list \<times> string \<Rightarrow> bool" where
  "fitsState n W st = ((\<forall>c\<in>set (fst st). fits n W c) \<and> (snd st = [] \<or> fits n W (snd st)))"

section \<open>Ranking order, exchanges and example data\<close>

definition rankedBefore :: "scoredChunk \<Rightarrow> scoredChunk \<Rightarrow> bool" where
  \<comment> \<open>higher score first; on equal scores the lower index first\<close>
  "rankedBefore a b = (score a > score b \<or> (score a = score b \<and> index a < index b))"

definition user :: "string \<Rightarrow> chatMessage" where
  "user t = \<lparr>role = User, content = t\<rparr>"

definition assistant :: "string \<Rightarrow> chatMessage" where
  "assistant t = \<lparr>role = Assistant, content = t\<rparr>"

definition pairsOf :: "(string \<times> string) list \<Rightarrow> chatMessage list" where
  \<comment> \<open>question and answer pairs as history entries, oldest first\<close>
  "pairsOf qrs = concat (map (\<lambda>(q, r). [user q, assistant r]) qrs)"

definition exchanges :: "(string \<times> string) list \<Rightarrow> chatMessage list" where
  \<comment> \<open>the history after the given completed exchanges, from an empty history\<close>
  "exchanges qrs = foldl (\<lambda>h (q, r). appendExchange h q r) [] qrs"

definition asciiLabel :: string where
  \<comment> \<open>the local service's label with its two letters above ASCII replaced\<close>
  "asciiLabel = ''Belge icerigi:''"

definition quietCallback :: "string \<Rightarrow> bool" where
  \<comment> \<open>an \<open>onUpdate\<close> that always returns\<close>
  "quietCallback c = True"

definition exampleDeltas :: "string \<Rightarrow> string option" where
  \<comment> \<open>what parsing gives on four payloads; anything else does not parse\<close>
  "exampleDeltas d =
     (if d = ''{\"choices\":[{\"delta\":{\"content\":\"Hel\"}}]}'' then Some ''Hel''
      else if d = ''{\"choices\":[{\"delta\":{\"content\":\"lo, \"}}]}'' then Some ''lo, ''
      else if d = ''{\"choices\":[{\"delta\":{\"content\":\"world\"}}]}'' then Some ''world''
      else if d = ''{\"choices\":[{\"delta\":{}}]}'' then Some []
      else None)"

definition exampleDocument :: processedDocument where
  "exampleDocument =
     \<lparr>docId = ''m1abc'', name = ''notes.txt'', content = ''alpha beta'', extension = ''txt'',
      chunks = [''alpha beta'']\<rparr>"

definition exampleStream :: "readResult list" where
  "exampleStream =
     [Value (''data: {\"choices\":[{\"delta\":{}}]}\<newline>\<newline>''
             @ ''data: {\"choices\":[{\"delta\":{\"content\":\"Hel\"}}]}\<newline>\<newline>''),
      Value (''data: {\"choices\":[{\"delta\":{\"content\":\"lo, \"}}]}\<newline>\<newline>''
             @ ''data: {\"choices\":[{\"delta\":{\"content\":\"world\"}}]}\<newline>\<newline>''
             @ ''data: [DONE]\<newline>\<newline>'')]"

definition fruitDocument :: processedDocument where
  "fruitDocument =
     \<lparr>docId = ''m2xyz'', name = ''fruit.txt'', content = ''apple banana apple banana apple Banana'',
      extension = ''txt'', chunks = [''apple banana'', ''apple'', ''banana apple'', ''Banana'']\<rparr>"

definition readyService :: "chatMessage list \<Rightarrow> webLLMService" where
  "readyService h = \<lparr>engine = True, isInitialized = True, document = Some exampleDocument, chatHistory = h\<rparr>"

definition remoteService :: "chatMessage list \<Rightarrow> openAIService" where
  "remoteService h = \<lparr>openAIService.document = Some exampleDocument, chatHistory = h\<rparr>"

text \<open>
  One question put to the example services, with a stream that delivers "Hello, world"; the
  caller awaits each call before the next.
\<close>

definition ask :: "openAIService \<Rightarrow> string \<Rightarrow> openAIService" where
  "ask svc q = after (generateResponse exampleDeltas (OkBody exampleStream) svc [user q])"

definition askLocal :: "webLLMService \<Rightarrow> string \<Rightarrow> webLLMService" where
  "askLocal svc q =
     after (WebLLM_generateResponse asciiLabel quietCallback
              (Stream [Delta ''Hel'', Delta ''lo, '', Delta ''world'']) svc [user q])"

section \<open>Splitting into words and paragraphs\<close>

lemma splitWs_plain: "\<forall>c\<in>set w. \<not> isWhiteSpace c \<Longrightarrow> splitWs w = [w]"
  by (induction w) (auto simp: consHead_def)

lemma splitWs_first:
  "\<forall>c\<in>set w. \<not> isWhiteSpace c \<Longrightarrow> isWhiteSpace c \<Longrightarrow>
     splitWs (w @ c # r) = w # splitWs (dropWhile isWhiteSpace r)"
  by (induction w) (auto simp: consHead_def)

lemma wordsOf_Nil: "wordsOf [] = []"
  by (simp add: wordsOf_def)

lemma wordsOf_dropWhile: "wordsOf (dropWhile isWhiteSpace s) = wordsOf s"
  by (induction s) (auto simp: wordsOf_def)

lemma wordsOf_plain:
  "\<forall>c\<in>set w. \<not> isWhiteSpace c \<Longrightarrow> wordsOf w = filter (\<lambda>w. w \<noteq> []) [w]"
  by (simp add: wordsOf_def splitWs_plain)

lemma wordsOf_first:
  "\<forall>c\<in>set w. \<not> isWhiteSpace c \<Longrightarrow> isWhiteSpace c \<Longrightarrow>
     wordsOf (w @ c # r) = filter (\<lambda>w. w \<noteq> []) [w] @ wordsOf r"
  using wordsOf_dropWhile [of r] by (simp add: wordsOf_def splitWs_first)

lemma wordsOf_ws_cons: "isWhiteSpace x \<Longrightarrow> wordsOf (x # s) = wordsOf s"
  using wordsOf_first [of "[]" x s] by simp

lemma wordsOf_ws_prefix: "\<forall>c\<in>set u. isWhiteSpace c \<Longrightarrow> wordsOf (u @ r) = wordsOf r"
  by (induction u) (auto simp: wordsOf_ws_cons)

lemma wordsOf_append_ws: "isWhiteSpace w \<Longrightarrow> wordsOf (a @ w # b) = wordsOf a @ wordsOf b"
proof (induction "length a" arbitrary: a rule: less_induct)
  case less
  define t where "t = takeWhile (\<lambda>c. \<not> isWhiteSpace c) a"
  define d where "d = dropWhile (\<lambda>c. \<not> isWhiteSpace c) a"
  have a: "a = t @ d" by (simp add: t_def d_def)
  have t: "\<forall>c\<in>set t. \<not> isWhiteSpace c"
    unfolding t_def by (auto dest: set_takeWhileD)
  show ?case
  proof (cases d)
    case Nil
    then show ?thesis
      using a t less.prems wordsOf_first [of a w b] wordsOf_plain [of a] by simp
  next
    case (Cons c r)
    have c: "isWhiteSpace c"
      using Cons unfolding d_def by (metis dropWhile_eq_Cons_conv)
    have "length r < length a" using a Cons by simp
    then have ih: "wordsOf (r @ w # b) = wordsOf r @ wordsOf b"
      using less by blast
    have "wordsOf (a @ w # b) = filter (\<lambda>w. w \<noteq> []) [t] @ wordsOf (r @ w # b)"
      using wordsOf_first [OF t c, of "r @ w # b"] a Cons by simp
    moreover have "wordsOf a = filter (\<lambda>w. w \<noteq> []) [t] @ wordsOf r"
      using wordsOf_first [OF t c, of r] a Cons by simp
    ultimately show ?thesis using ih by simp
  qed
qed

lemma set_consHead: "r \<noteq> [] \<Longrightarrow> set (consHead x r) = insert (x # hd r) (set (tl r))"
  by (cases r) (simp_all add: consHead_def)

lemma splitWs_nonempty: "splitWs s \<noteq> []"
  by (cases s) (simp_all add: consHead_def split: list.splits)

lemma splitWs_pieces_all: "\<forall>w\<in>set (splitWs s). \<forall>c\<in>set w. \<not> isWhiteSpace c"
proof (induction s rule: splitWs.induct)
  case 1
  show ?case by simp
next
  case (2 x xs)
  show ?case
  proof (cases "isWhiteSpace x")
    case True
    have "\<forall>w\<in>set (splitWs (dropWhile isWhiteSpace xs)). \<forall>c\<in>set w. \<not> isWhiteSpace c"
      using 2(1) [OF True] .
    then show ?thesis using True by simp
  next
    case False
    have ih: "\<forall>w\<in>set (splitWs xs). \<forall>c\<in>set w. \<not> isWhiteSpace c"
      using 2(2) [OF False] .
    obtain y ys where r: "splitWs xs = y # ys"
      using splitWs_nonempty [of xs] by (cases "splitWs xs") auto
    have "splitWs (x # xs) = (x # y) # ys"
      using False r by (simp add: consHead_def)
    then show ?thesis using ih r False by simp
  qed
qed

lemma splitWs_pieces: "w \<in> set (splitWs s) \<Longrightarrow> c \<in> set w \<Longrightarrow> \<not> isWhiteSpace c"
  using splitWs_pieces_all by blast

lemma concat_wordsOf_pieces:
  "(\<forall>w\<in>set ps. \<forall>c\<in>set w. \<not> isWhiteSpace c) \<Longrightarrow>
     concat (map wordsOf ps) = filter (\<lambda>w. w \<noteq> []) ps"
  by (induction ps) (auto simp: wordsOf_plain)

lemma concat_wordsOf_splitWs: "concat (map wordsOf (splitWs p)) = wordsOf p"
  using concat_wordsOf_pieces [of "splitWs p"] splitWs_pieces [of _ p]
  by (auto simp: wordsOf_def)

lemma splitPara_nonempty: "splitPara s \<noteq> []"
  by (cases s) (auto simp: consHead_def split: list.splits)

lemma afterLastLF_suffix:
  "\<exists>u. xs = u @ afterLastLF xs \<and> (\<forall>c\<in>set u. isWhiteSpace c)"
proof -
  define run where "run = takeWhile isWhiteSpace xs"
  define k where "k = length run - length (takeWhile (\<lambda>c. c \<noteq> CHR 0x0A) (rev run))"
  have "k \<le> length run" by (simp add: k_def)
  then have "take k xs = take k run"
    unfolding run_def by (metis takeWhile_eq_take take_take min.absorb1 length_takeWhile_le)
  then have "\<forall>c\<in>set (take k xs). isWhiteSpace c"
    unfolding run_def by (auto dest!: in_set_takeD set_takeWhileD)
  moreover have "xs = take k xs @ afterLastLF xs"
    by (simp add: afterLastLF_def Let_def k_def run_def)
  ultimately show ?thesis by blast
qed

lemma wordsOf_splitPara_gen:
  "wordsOf (p @ s) = wordsOf (p @ hd (splitPara s)) @ concat (map wordsOf (tl (splitPara s)))"
proof (induction s arbitrary: p rule: splitPara.induct)
  case 1
  then show ?case by simp
next
  case (2 x xs)
  show ?case
  proof (cases "x = CHR 0x0A \<and> CHR 0x0A \<in> set (takeWhile isWhiteSpace xs)")
    case True
    obtain u where u: "xs = u @ afterLastLF xs" "\<forall>c\<in>set u. isWhiteSpace c"
      using afterLastLF_suffix by blast
    have x: "isWhiteSpace x" using True by (simp add: isWhiteSpace_def)
    have "wordsOf (p @ x # xs) = wordsOf p @ wordsOf xs"
      using wordsOf_append_ws [OF x] by simp
    also have "wordsOf xs = wordsOf (afterLastLF xs)"
      using wordsOf_ws_prefix [OF u(2), of "afterLastLF xs"] u(1) by simp
    also have "\<dots> = concat (map wordsOf (splitPara (afterLastLF xs)))"
      using 2(1) [OF True, of "[]"] splitPara_nonempty [of "afterLastLF xs"]
      by (cases "splitPara (afterLastLF xs)") auto
    finally show ?thesis using True by simp
  next
    case False
    then have "splitPara (x # xs) = (x # hd (splitPara xs)) # tl (splitPara xs)"
      using splitPara_nonempty [of xs] by (cases "splitPara xs") (auto simp: consHead_def)
    then show ?thesis using 2(2) [OF False, of "p @ [x]"] by simp
  qed
qed

lemma concat_wordsOf_splitPara: "concat (map wordsOf (splitPara s)) = wordsOf s"
  using wordsOf_splitPara_gen [of "[]" s] splitPara_nonempty [of s]
  by (cases "splitPara s") auto

section \<open>The chunks keep the words\<close>

lemma wordsOf_join_space:
  "wordsOf (a @ (if a \<noteq> [] then '' '' else []) @ b) = wordsOf a @ wordsOf b"
  using wordsOf_append_ws [of "CHR '' ''" a b]
  by (simp add: wordsOf_Nil isWhiteSpace_def)

lemma wordsOf_join_blank:
  "wordsOf (a @ (if a \<noteq> [] then ''\<newline>\<newline>'' else []) @ b) = wordsOf a @ wordsOf b"
proof -
  have lf: "isWhiteSpace CHR 0x0A" by (simp add: isWhiteSpace_def)
  have "wordsOf (a @ CHR 0x0A # CHR 0x0A # b) = wordsOf a @ wordsOf b"
    using wordsOf_append_ws [OF lf, of a "CHR 0x0A # b"] wordsOf_ws_cons [OF lf, of b] by simp
  then show ?thesis by (simp add: wordsOf_Nil)
qed

lemma packWord_words:
  "wordsOfState (packWord n st word) = wordsOfState st @ wordsOf word"
  by (cases st) (simp add: packWord_def wordsOfState_def wordsOf_join_space wordsOf_Nil)

lemma foldl_packWord_words:
  "wordsOfState (foldl (packWord n) st ws) = wordsOfState st @ concat (map wordsOf ws)"
  by (induction ws arbitrary: st) (simp_all add: packWord_words)

lemma packParagraph_words:
  "wordsOfState (packParagraph n st p) = wordsOfState st @ wordsOf p"
proof (cases st)
  case (Pair chunks cur)
  show ?thesis
  proof (cases "int (length p) > n")
    case True
    then show ?thesis
      using foldl_packWord_words [of n st "splitWs p"] Pair
      by (simp add: packParagraph_def concat_wordsOf_splitWs)
  next
    case False
    then show ?thesis using Pair
      by (simp add: packParagraph_def wordsOfState_def wordsOf_join_blank wordsOf_Nil)
  qed
qed

lemma foldl_packParagraph_words:
  "wordsOfState (foldl (packParagraph n) st ps) = wordsOfState st @ concat (map wordsOf ps)"
  by (induction ps arbitrary: st) (simp_all add: packParagraph_words)

lemma chunkDocument_words: "concat (map wordsOf (chunkDocument body n)) = wordsOf body"
proof (cases "int (length body) < n")
  case True
  then show ?thesis by (simp add: chunkDocument_def)
next
  case False
  obtain chunks cur where st: "foldl (packParagraph n) ([], []) (splitPara body) = (chunks, cur)"
    by (cases "foldl (packParagraph n) ([], []) (splitPara body)")
  have "wordsOfState (chunks, cur) = wordsOf body"
    using foldl_packParagraph_words [of n "([], [])" "splitPara body"] st
    by (simp add: wordsOfState_def wordsOf_Nil concat_wordsOf_splitPara)
  then show ?thesis using False st
    by (auto simp: chunkDocument_def wordsOfState_def wordsOf_Nil)
qed

section \<open>No chunk is empty\<close>

lemma packWord_nonempty: "[] \<notin> set (fst st) \<Longrightarrow> [] \<notin> set (fst (packWord n st word))"
  by (cases st) (simp add: packWord_def)

lemma foldl_packWord_nonempty:
  "[] \<notin> set (fst st) \<Longrightarrow> [] \<notin> set (fst (foldl (packWord n) st ws))"
  by (induction ws arbitrary: st) (simp_all add: packWord_nonempty)

lemma packParagraph_nonempty:
  "[] \<notin> set (fst st) \<Longrightarrow> [] \<notin> set (fst (packParagraph n st p))"
  using foldl_packWord_nonempty [of st n "splitWs p"]
  by (cases st) (simp add: packParagraph_def)

lemma foldl_packParagraph_nonempty:
  "[] \<notin> set (fst st) \<Longrightarrow> [] \<notin> set (fst (foldl (packParagraph n) st ps))"
  by (induction ps arbitrary: st) (simp_all add: packParagraph_nonempty)

lemma chunkDocument_nonempty: "body \<noteq> [] \<Longrightarrow> [] \<notin> set (chunkDocument body n)"
proof (cases "int (length body) < n")
  case True
  assume "body \<noteq> []"
  then show ?thesis using True by (simp add: chunkDocument_def)
next
  case False
  obtain chunks cur where st: "foldl (packParagraph n) ([], []) (splitPara body) = (chunks, cur)"
    by (cases "foldl (packParagraph n) ([], []) (splitPara body)")
  have "[] \<notin> set chunks"
    using foldl_packParagraph_nonempty [of "([], [])" n "splitPara body"] st by simp
  then show ?thesis using False st by (simp add: chunkDocument_def)
qed

section \<open>Chunk sizes\<close>

lemma packWord_fits:
  "fitsState n W st \<Longrightarrow> word = [] \<or> word \<in> W \<Longrightarrow> fitsState n W (packWord n st word)"
  by (cases st) (auto simp: packWord_def fitsState_def fits_def)

lemma foldl_packWord_fits:
  "fitsState n W st \<Longrightarrow> \<forall>w\<in>set ws. w = [] \<or> w \<in> W \<Longrightarrow> fitsState n W (foldl (packWord n) st ws)"
  by (induction ws arbitrary: st) (simp_all add: packWord_fits)

lemma packParagraph_fits:
  assumes "fitsState n W st" and "set (wordsOf p) \<subseteq> W"
  shows "fitsState n W (packParagraph n st p)"
proof (cases "int (length p) > n")
  case True
  have "\<forall>w\<in>set (splitWs p). w = [] \<or> w \<in> W"
    using assms(2) by (auto simp: wordsOf_def)
  then show ?thesis
    using True foldl_packWord_fits [OF assms(1), of "splitWs p"]
    by (cases st) (simp add: packParagraph_def)
next
  case False
  then show ?thesis using assms(1)
    by (cases st) (auto simp: packParagraph_def fitsState_def fits_def)
qed

lemma foldl_packParagraph_fits:
  "fitsState n W st \<Longrightarrow> \<forall>p\<in>set ps. set (wordsOf p) \<subseteq> W \<Longrightarrow>
     fitsState n W (foldl (packParagraph n) st ps)"
  by (induction ps arbitrary: st) (simp_all add: packParagraph_fits)

lemma chunkDocument_fits:
  "c \<in> set (chunkDocument body n) \<Longrightarrow> int (length c) \<le> n \<or> c \<in> set (wordsOf body)"
proof (cases "int (length body) < n")
  case True
  assume "c \<in> set (chunkDocument body n)"
  then show ?thesis using True by (simp add: chunkDocument_def)
next
  case False
  assume c: "c \<in> set (chunkDocument body n)"
  obtain chunks cur where st: "foldl (packParagraph n) ([], []) (splitPara body) = (chunks, cur)"
    by (cases "foldl (packParagraph n) ([], []) (splitPara body)")
  have "\<forall>p\<in>set (splitPara body). set (wordsOf p) \<subseteq> set (wordsOf body)"
    using concat_wordsOf_splitPara [of body, symmetric] by auto
  then have "fitsState n (set (wordsOf body)) (chunks, cur)"
    using foldl_packParagraph_fits [of n "set (wordsOf body)" "([], [])" "splitPara body"] st
    by (simp add: fitsState_def)
  then show ?thesis using c False st
    by (auto simp: chunkDocument_def fitsState_def fits_def split: if_splits)
qed

text \<open>
  C5: for a text that is not empty, the words of the chunks, chunk after chunk, are the words
  of the text in their order; no chunk is empty; and a chunk longer than the chunk size is a
  single word of the text.
\<close>

theorem chunkDocument_coverage:
  "body \<noteq> [] \<Longrightarrow>
     concat (map wordsOf (chunkDocument body chunkSize)) = wordsOf body
     \<and> [] \<notin> set (chunkDocument body chunkSize)
     \<and> (\<forall>c\<in>set (chunkDocument body chunkSize).
          int (length c) \<le> chunkSize \<or> (c \<in> set (wordsOf body) \<and> int (length c) > chunkSize))"
  using chunkDocument_words [of body chunkSize] chunkDocument_nonempty [of body chunkSize]
    chunkDocument_fits [of _ body chunkSize]
  by (simp add: linorder_not_le [symmetric]) blast

theorem chunkDocument_coverage_witness:
  "''aaa bbb\<newline>\<newline>cc dd ee ff gg\<newline>\<newline>h'' \<noteq> []
   \<and> chunkDocument ''aaa bbb\<newline>\<newline>cc dd ee ff gg\<newline>\<newline>h'' 6 = [''aaa'', ''bbb cc'', ''dd ee'', ''ff gg'', ''h'']
   \<and> concat (map wordsOf (chunkDocument ''aaa bbb\<newline>\<newline>cc dd ee ff gg\<newline>\<newline>h'' 6)) = wordsOf ''aaa bbb\<newline>\<newline>cc dd ee ff gg\<newline>\<newline>h''
   \<and> [] \<notin> set (chunkDocument ''aaa bbb\<newline>\<newline>cc dd ee ff gg\<newline>\<newline>h'' 6)"
  using chunkDocument_coverage [of "''aaa bbb\<newline>\<newline>cc dd ee ff gg\<newline>\<newline>h''" 6]
  by (simp, code_simp)

section \<open>Short texts\<close>

text \<open>
  C10: a text strictly shorter than the chunk size, the empty text included, comes back as
  the only chunk, unchanged; with the default size 1000 the empty text gives one empty chunk.
\<close>

theorem chunkDocument_short:
  "(int (length body) < chunkSize \<longrightarrow> chunkDocument body chunkSize = [body])
   \<and> chunkDocument '''' 1000 = ['''']"
  by (simp add: chunkDocument_def)

theorem chunkDocument_short_witness:
  "int (length ''one two'') < 1000 \<and> chunkDocument ''one two'' 1000 = [''one two'']"
  using chunkDocument_short [of "''one two''" 1000] by simp

section \<open>Ranking\<close>

lemma mset_insertBy: "mset (insertBy cmp x xs) = add_mset x (mset xs)"
  by (induction xs) simp_all

lemma mset_sortBy: "mset (sortBy cmp xs) = mset xs"
  unfolding sortBy_def by (induction xs) (simp_all add: mset_insertBy)

lemma set_insertBy: "set (insertBy cmp x xs) = insert x (set xs)"
  using mset_insertBy [of cmp x xs] by (metis set_mset_add_mset_insert set_mset_mset)

lemma compareScored_le:
  "compareScored a b \<le> 0 \<longleftrightarrow> score b < score a \<or> (score a = score b \<and> index a \<le> index b)"
  by (auto simp: compareScored_def)

lemma sorted_insertBy:
  "sorted_wrt (\<lambda>a b. compareScored a b \<le> 0) xs \<Longrightarrow>
     sorted_wrt (\<lambda>a b. compareScored a b \<le> 0) (insertBy compareScored x xs)"
proof (induction xs)
  case Nil
  then show ?case by simp
next
  case (Cons y ys)
  show ?case
  proof (cases "compareScored x y \<le> 0")
    case True
    have "\<forall>z\<in>set ys. compareScored x z \<le> 0"
      using Cons.prems True by (auto simp: compareScored_le)
    then show ?thesis using True Cons.prems by simp
  next
    case False
    then have "compareScored y x \<le> 0" by (auto simp: compareScored_le)
    then show ?thesis using False Cons by (simp add: set_insertBy)
  qed
qed

lemma sorted_sortBy: "sorted_wrt (\<lambda>a b. compareScored a b \<le> 0) (sortBy compareScored xs)"
  unfolding sortBy_def by (induction xs) (simp_all add: sorted_insertBy)

lemma sorted_wrt_distinct_key:
  "sorted_wrt P xs \<Longrightarrow> distinct (map f xs) \<Longrightarrow> sorted_wrt (\<lambda>a b. P a b \<and> f a \<noteq> f b) xs"
  by (induction xs) auto

lemma index_scoredChunks_gen:
  "map index (map (\<lambda>(i, c). \<lparr>chunk = c, score = scoreChunk kws c, index = i\<rparr>) (enumerate n cs))
     = [n..<n + length cs]"
  by (induction cs arbitrary: n) (simp_all add: upt_rec)

lemma index_scoredChunks: "map index (scoredChunks kws cs) = [0..<length cs]"
  using index_scoredChunks_gen [of kws 0 cs] by (simp add: scoredChunks_def)

lemma distinct_index_sortBy: "distinct (map index (sortBy cmp (scoredChunks kws cs)))"
proof -
  have "mset (map index (sortBy cmp (scoredChunks kws cs))) = mset (map index (scoredChunks kws cs))"
    by (simp add: mset_sortBy)
  then have "distinct (map index (sortBy cmp (scoredChunks kws cs))) = distinct (map index (scoredChunks kws cs))"
    by (rule mset_eq_imp_distinct_iff)
  then show ?thesis by (simp add: index_scoredChunks)
qed

lemma ranked_sortBy: "sorted_wrt rankedBefore (sortBy compareScored (scoredChunks kws cs))"
proof -
  have "sorted_wrt (\<lambda>a b. compareScored a b \<le> 0 \<and> index a \<noteq> index b)
          (sortBy compareScored (scoredChunks kws cs))"
    using sorted_wrt_distinct_key [OF sorted_sortBy distinct_index_sortBy] .
  then show ?thesis
    by (rule sorted_wrt_mono_rel [rotated]) (auto simp: compareScored_le rankedBefore_def)
qed

lemma rankedBefore_asym: "rankedBefore a b \<Longrightarrow> \<not> rankedBefore b a"
  by (auto simp: rankedBefore_def)

lemma ranked_unique:
  "sorted_wrt rankedBefore xs \<Longrightarrow> sorted_wrt rankedBefore ys \<Longrightarrow> mset xs = mset ys \<Longrightarrow> xs = ys"
proof (induction xs arbitrary: ys)
  case Nil
  then show ?case by simp
next
  case (Cons x xs)
  then obtain y ys' where ys: "ys = y # ys'"
    by (cases ys) auto
  have "x = y"
  proof (rule ccontr)
    assume ne: "x \<noteq> y"
    have "x \<in> set ys" using Cons.prems(3) by (metis list.set_intros(1) mset_eq_setD)
    then have "x \<in> set ys'" using ne ys by simp
    then have 1: "rankedBefore y x" using Cons.prems(2) ys by simp
    have "y \<in> set (x # xs)" using Cons.prems(3) ys by (metis list.set_intros(1) mset_eq_setD)
    then have "y \<in> set xs" using ne by simp
    then have "rankedBefore x y" using Cons.prems(1) by simp
    then show False using 1 rankedBefore_asym by blast
  qed
  moreover have "xs = ys'"
    using Cons.IH [of ys'] Cons.prems ys \<open>x = y\<close> by simp
  ultimately show ?case using ys by simp
qed

text \<open>
  C3: with a keyword list that is not empty, the scored chunks (every chunk once, with its
  score and its index in the document) have a ranked arrangement, sorted by falling score and,
  on equal scores, by rising index; \<open>findRelevantChunks\<close> returns the chunks of the first
  \<open>maxChunks\<close> entries of any such arrangement. For the chunks "apple banana", "apple",
  "banana apple" and the query "apple" the order is unchanged.
\<close>

theorem findRelevantChunks_ranked:
  "(extractKeywords query \<noteq> [] \<longrightarrow>
      mset (sortBy compareScored (scoredChunks (extractKeywords query) (chunks d)))
        = mset (scoredChunks (extractKeywords query) (chunks d))
      \<and> sorted_wrt rankedBefore
          (sortBy compareScored (scoredChunks (extractKeywords query) (chunks d)))
      \<and> (\<forall>ranked. mset ranked = mset (scoredChunks (extractKeywords query) (chunks d))
             \<and> sorted_wrt rankedBefore ranked
           \<longrightarrow> findRelevantChunks (Some d) query maxChunks = map chunk (take maxChunks ranked)))
   \<and> findRelevantChunks
        (Some \<lparr>docId = ''1'', name = ''fruit.txt'', content = ''apple banana apple banana apple'',
               extension = ''txt'', chunks = [''apple banana'', ''apple'', ''banana apple'']\<rparr>)
        ''apple'' 3
      = [''apple banana'', ''apple'', ''banana apple'']"
proof -
  have ex: "findRelevantChunks
        (Some \<lparr>docId = ''1'', name = ''fruit.txt'', content = ''apple banana apple banana apple'',
               extension = ''txt'', chunks = [''apple banana'', ''apple'', ''banana apple'']\<rparr>)
        ''apple'' 3
      = [''apple banana'', ''apple'', ''banana apple'']"
    by code_simp
  have def: "extractKeywords query \<noteq> [] \<Longrightarrow> findRelevantChunks (Some d) query maxChunks
        = map chunk (take maxChunks
            (sortBy compareScored (scoredChunks (extractKeywords query) (chunks d))))"
    by (simp add: findRelevantChunks_def Let_def scoredChunks_def sortBy_def)
  have uniq: "ranked = sortBy compareScored (scoredChunks (extractKeywords query) (chunks d))"
    if "mset ranked = mset (scoredChunks (extractKeywords query) (chunks d))"
      and "sorted_wrt rankedBefore ranked" for ranked
    using ranked_unique [OF that(2) ranked_sortBy] that(1) by (simp add: mset_sortBy)
  show ?thesis
    using ex def uniq mset_sortBy ranked_sortBy by blast
qed

theorem findRelevantChunks_ranked_witness:
  "extractKeywords ''banana BANANA apple'' \<noteq> []
   \<and> findRelevantChunks (Some fruitDocument) ''banana BANANA apple'' 3
      = [''apple banana'', ''banana apple'', ''Banana'']
   \<and> sorted_wrt rankedBefore
          (sortBy compareScored
             (scoredChunks (extractKeywords ''banana BANANA apple'') (chunks fruitDocument)))"
proof -
  have k: "extractKeywords ''banana BANANA apple'' \<noteq> []"
    by code_simp
  have v: "findRelevantChunks (Some fruitDocument) ''banana BANANA apple'' 3
      = [''apple banana'', ''banana apple'', ''Banana'']"
    by code_simp
  have "sorted_wrt rankedBefore
          (sortBy compareScored
             (scoredChunks (extractKeywords ''banana BANANA apple'') (chunks fruitDocument)))"
    using findRelevantChunks_ranked [of "''banana BANANA apple''" fruitDocument 3] k by blast
  then show ?thesis using k v by (intro conjI)
qed

section \<open>Scores\<close>

lemma foldl_score:
  "foldl (\<lambda>acc k. acc + (if P k then 1 else 0)) (a::int) ks = a + int (length (filter P ks))"
  by (induction ks arbitrary: a) simp_all

text \<open>
  C4, as the code has it: the score of a chunk is the number of entries of the keyword list
  that occur in the chunk whatever the case of the letters, an entry counting once however
  often it occurs in the chunk; a keyword written twice in the query is two entries. When
  the list has no repeated entry the score is the number of different keywords that occur.
\<close>

theorem scoreChunk_counts:
  "scoreChunk keywords c
     = int (length (filter (\<lambda>k. includes_str (toLowerCase k) (toLowerCase c)) keywords))
   \<and> (distinct keywords \<longrightarrow> scoreChunk keywords c = int (distinctMatches keywords c))"
proof -
  have a: "scoreChunk keywords c
     = int (length (filter (\<lambda>k. includes_str (toLowerCase k) (toLowerCase c)) keywords))"
    unfolding scoreChunk_def by (simp add: foldl_score)
  have "distinct keywords \<Longrightarrow>
     length (filter (\<lambda>k. includes_str (toLowerCase k) (toLowerCase c)) keywords)
       = distinctMatches keywords c"
    unfolding distinctMatches_def
    by (simp add: distinct_length_filter Int_def conj_commute)
  then show ?thesis using a by simp
qed

theorem scoreChunk_counts_witness:
  "distinct (extractKeywords ''Which APPLE pies need butter'')
   \<and> scoreChunk (extractKeywords ''Which APPLE pies need butter'') ''Apple pie: apples, butter'' = 2
   \<and> distinctMatches (extractKeywords ''Which APPLE pies need butter'') ''Apple pie: apples, butter'' = 2"
  using scoreChunk_counts [of "extractKeywords ''Which APPLE pies need butter''" "''Apple pie: apples, butter''"]
  by (simp, code_simp)

text \<open>
  C4 as stated fails: the query "apple apple" gives the keyword list [apple, apple], and the
  chunk "apple pie" scores 2 with one keyword in it.
\<close>

theorem scoreChunk_repeated_keyword:
  "scoreChunk (extractKeywords ''apple apple'') ''apple pie'' = 2
   \<and> distinctMatches (extractKeywords ''apple apple'') ''apple pie'' = 1"
  by code_simp

section \<open>Key topics\<close>

lemma topicCallback_truthy: "topicCallback line \<noteq> [] \<longleftrightarrow> line \<noteq> []"
  by (cases line) (auto simp: topicCallback_def stripListMarker_def startsWith_def)

lemma extractKeyTopics_eq:
  "extractKeyTopics t = filter (\<lambda>l. l \<noteq> []) (map trim (splitOn CHR 0x0A t))"
  by (simp add: extractKeyTopics_def topicCallback_truthy)

lemma stripListMarker_unmarked: "\<not> startsWith ''-'' l \<Longrightarrow> stripListMarker l = l"
  by (cases l) (auto simp: stripListMarker_def startsWith_def)

text \<open>
  C2, as the code has it: when no trimmed line of the answer starts with the list marker, the
  topics are the trimmed lines that are not empty, in their order; that is the specified
  parse with its empty lines left out.
\<close>

theorem extractKeyTopics_unmarked:
  assumes "\<forall>l\<in>set (splitOn CHR 0x0A t). \<not> startsWith ''-'' (trim l)"
  shows "extractKeyTopics t = filter (\<lambda>l. l \<noteq> []) (map trim (splitOn CHR 0x0A t))
       \<and> extractKeyTopics t = filter (\<lambda>l. l \<noteq> []) (keyTopicsAsSpecified t)"
proof -
  have eq: "map (\<lambda>line. stripListMarker (trim line)) (splitOn CHR 0x0A t) = map trim (splitOn CHR 0x0A t)"
    using assms by (simp add: stripListMarker_unmarked)
  show ?thesis unfolding extractKeyTopics_eq keyTopicsAsSpecified_def eq by simp
qed

theorem extractKeyTopics_unmarked_witness:
  "list_all (\<lambda>l. \<not> startsWith ''-'' (trim l))
     (splitOn CHR 0x0A '' Solar power \<newline>\<newline>Wind farms\<newline>'')
   \<and> extractKeyTopics '' Solar power \<newline>\<newline>Wind farms\<newline>''
       = filter (\<lambda>l. l \<noteq> []) (keyTopicsAsSpecified '' Solar power \<newline>\<newline>Wind farms\<newline>'')
   \<and> extractKeyTopics '' Solar power \<newline>\<newline>Wind farms\<newline>'' = [''Solar power'', ''Wind farms'']"
proof -
  have h: "\<forall>l\<in>set (splitOn CHR 0x0A '' Solar power \<newline>\<newline>Wind farms\<newline>'').
             \<not> startsWith ''-'' (trim l)"
    by code_simp
  have v: "extractKeyTopics '' Solar power \<newline>\<newline>Wind farms\<newline>'' = [''Solar power'', ''Wind farms'']"
    by code_simp
  have k: "extractKeyTopics '' Solar power \<newline>\<newline>Wind farms\<newline>''
       = filter (\<lambda>l. l \<noteq> []) (keyTopicsAsSpecified '' Solar power \<newline>\<newline>Wind farms\<newline>'')"
    using extractKeyTopics_unmarked [OF h] by (rule conjunct2)
  have l: "list_all (\<lambda>l. \<not> startsWith ''-'' (trim l))
     (splitOn CHR 0x0A '' Solar power \<newline>\<newline>Wind farms\<newline>'')"
    unfolding list_all_iff by (rule h)
  show ?thesis using l k v by (intro conjI)
qed

text \<open>
  C2 as stated fails: the empty line between two topics is dropped.
\<close>

theorem extractKeyTopics_drops_empty_lines:
  "extractKeyTopics ''Solar power\<newline>\<newline>Wind farms'' = [''Solar power'', ''Wind farms'']
   \<and> keyTopicsAsSpecified ''Solar power\<newline>\<newline>Wind farms'' = [''Solar power'', [], ''Wind farms'']"
  by code_simp

text \<open>
  A line that starts with the list marker is kept with its marker: the callback strips only
  lines that have none, and \<open>filter\<close> uses its result as a truth value.
\<close>

lemma extractKeyTopics_keeps_marker:
  "extractKeyTopics ''- Solar power\<newline>- Wind farms'' = [''- Solar power'', ''- Wind farms'']"
  by code_simp

section \<open>The two services\<close>

lemma processLine_concat:
  "fst acc = concat (snd acc) \<Longrightarrow>
     fst (processLine dc acc line) = concat (snd (processLine dc acc line))"
  by (cases acc) (simp add: processLine_def split: option.splits)

lemma foldl_processLine_concat:
  "fst acc = concat (snd acc) \<Longrightarrow>
     fst (foldl (processLine dc) acc ls) = concat (snd (foldl (processLine dc) acc ls))"
  by (induction ls arbitrary: acc) (simp_all add: processLine_concat)

lemma readLoop_concat:
  "readLoop dc reads acc = (e, full, ups) \<Longrightarrow> fst acc = concat (snd acc) \<Longrightarrow> full = concat ups"
proof (induction dc reads acc rule: readLoop.induct)
  case (1 deltaContent acc)
  then show ?case by auto
next
  case (2 deltaContent rs acc)
  then show ?case by auto
next
  case (3 deltaContent v rs acc)
  then show ?case using foldl_processLine_concat [of acc deltaContent "sseLines v"] by simp
qed

lemma streamLoop_concat:
  "streamLoop ok items acc = (b, response, ups) \<Longrightarrow> fst acc = concat (snd acc) \<Longrightarrow>
     response = concat ups"
proof (induction ok items acc rule: streamLoop.induct)
  case (1 onUpdateOk acc)
  then show ?case by auto
next
  case (2 onUpdateOk rest acc)
  then show ?case by auto
next
  case (3 onUpdateOk c rest response' ups')
  then show ?case by (cases "onUpdateOk c") auto
qed

lemma generateResponse_concat:
  "result (generateResponse dc net svc messages) = Inr r \<Longrightarrow>
     r = concat (updates (generateResponse dc net svc messages))"
  by (auto simp: generateResponse_def Let_def dest: readLoop_concat
           split: option.splits if_splits fetchResult.splits prod.splits)

lemma WebLLM_generateResponse_concat:
  "result (WebLLM_generateResponse label ok eng svc messages) = Inr r \<Longrightarrow>
     r = concat (updates (WebLLM_generateResponse label ok eng svc messages))"
  by (auto simp: WebLLM_generateResponse_def Let_def dest: streamLoop_concat
           split: option.splits if_splits engineResult.splits prod.splits bool.splits)

lemma generateResponse_failure:
  "result (generateResponse dc net svc messages) = Inl e \<Longrightarrow>
     after (generateResponse dc net svc messages) = svc"
  by (auto simp: generateResponse_def Let_def
           split: option.splits if_splits fetchResult.splits prod.splits)

lemma WebLLM_generateResponse_failure:
  "result (WebLLM_generateResponse label ok eng svc messages) = Inl e \<Longrightarrow>
     after (WebLLM_generateResponse label ok eng svc messages) = svc"
  by (auto simp: WebLLM_generateResponse_def Let_def
           split: option.splits if_splits engineResult.splits prod.splits bool.splits)

lemma generateResponse_success:
  "result (generateResponse dc net svc messages) = Inr r \<Longrightarrow>
     after (generateResponse dc net svc messages)
       = svc\<lparr>openAIService.chatHistory :=
               appendExchange (openAIService.chatHistory svc) (content (last messages)) r\<rparr>"
  by (auto simp: generateResponse_def Let_def
           split: option.splits if_splits fetchResult.splits prod.splits)

lemma WebLLM_generateResponse_success:
  "result (WebLLM_generateResponse label ok eng svc messages) = Inr r \<Longrightarrow>
     after (WebLLM_generateResponse label ok eng svc messages)
       = svc\<lparr>chatHistory := appendExchange (chatHistory svc) (content (last messages)) r\<rparr>"
  by (auto simp: WebLLM_generateResponse_def Let_def
           split: option.splits if_splits engineResult.splits prod.splits bool.splits)

lemma setDocument_clears_history:
  "openAIService.chatHistory (setDocument d svc) = []"
  "chatHistory (WebLLM_setDocument d lsvc) = []"
  by (simp_all add: setDocument_def WebLLM_setDocument_def)

lemma appendExchange_sliceLast:
  "appendExchange h q r
     = sliceLast 10 (h @ [\<lparr>role = User, content = q\<rparr>, \<lparr>role = Assistant, content = r\<rparr>])"
  by (simp add: appendExchange_def sliceLast_def Let_def)

lemma length_appendExchange: "length (appendExchange h q r) \<le> 10"
  by (simp add: appendExchange_sliceLast sliceLast_def)

lemma exchanges_snoc: "exchanges (qrs @ [(q, r)]) = appendExchange (exchanges qrs) q r"
  by (simp add: exchanges_def)

lemma sliceLast_sliceLast_append:
  "sliceLast n (sliceLast n xs @ ys) = sliceLast n (xs @ ys)"
proof (cases "n \<le> length xs")
  case True
  then show ?thesis by (simp add: sliceLast_def add.commute)
next
  case False
  then show ?thesis by (simp add: sliceLast_def)
qed

lemma exchanges_last_pairs: "exchanges qrs = sliceLast 10 (pairsOf qrs)"
proof (induction qrs rule: rev_induct)
  case Nil
  show ?case by (simp add: exchanges_def pairsOf_def sliceLast_def)
next
  case (snoc x xs)
  obtain q r where x: "x = (q, r)" by (cases x)
  have "exchanges (xs @ [x]) = sliceLast 10 (exchanges xs @ [user q, assistant r])"
    by (simp add: x exchanges_snoc appendExchange_sliceLast user_def assistant_def)
  also have "\<dots> = sliceLast 10 (pairsOf xs @ [user q, assistant r])"
    by (simp add: snoc.IH sliceLast_sliceLast_append)
  finally show ?case by (simp add: x pairsOf_def)
qed

lemma apiMessages_order:
  "apiMessages svc q =
     \<lparr>role = System, content = createSystemPrompt (openAIService.document svc)\<rparr>
     # sliceLast 6 (openAIService.chatHistory svc)
     @ [user (''Document content:\<newline>''
              @ join ''\<newline>\<newline>'' (findRelevantChunks (openAIService.document svc) q 3)
              @ ''\<newline>\<newline>Question: '' @ q)]"
  by (simp add: apiMessages_def Let_def sliceLast_def user_def)

lemma augmentedMessages_order:
  "augmentedMessages label svc q =
     [\<lparr>role = System, content = createSystemPrompt (document svc)\<rparr>,
      user (label @ ''\<newline>'' @ join ''\<newline>\<newline>'' (findRelevantChunks (document svc) q 3)
            @ ''\<newline>\<newline>Sorum: '' @ q)]
     @ sliceLast 6 (chatHistory svc)"
  by (simp add: augmentedMessages_def Let_def sliceLast_def user_def)

text \<open>
  C1: in the local service the recent history follows the new user message, so the message
  that holds the context and the query is not the last one submitted.
\<close>

theorem local_service_history_after_question:
  "requests (WebLLM_generateResponse asciiLabel quietCallback (Stream [Delta ''Hel''])
      (readyService [user ''What is beta?'', assistant ''A letter.'']) [user ''What is alpha?''])
   = [[\<lparr>role = System, content = createSystemPrompt (Some exampleDocument)\<rparr>,
       user (asciiLabel @ ''\<newline>alpha beta\<newline>\<newline>Sorum: What is alpha?''),
       user ''What is beta?'',
       assistant ''A letter.'']]"
  by code_simp

theorem local_service_history_after_question_witness:
  "map role (concat (requests (WebLLM_generateResponse asciiLabel quietCallback (Stream [Delta ''Hel''])
      (readyService [user ''What is beta?'', assistant ''A letter.'']) [user ''What is alpha?''])))
   = [System, User, User, Assistant]"
  using local_service_history_after_question by (simp add: user_def assistant_def)

text \<open>
  The remote service, on the same history and question, puts the history between the system
  message and the new user message.
\<close>

lemma remote_service_history_before_question:
  "requests (generateResponse exampleDeltas (OkBody exampleStream)
      (remoteService [user ''What is beta?'', assistant ''A letter.'']) [user ''What is alpha?''])
   = [[\<lparr>role = System, content = createSystemPrompt (Some exampleDocument)\<rparr>,
       user ''What is beta?'',
       assistant ''A letter.'',
       user (''Document content:\<newline>alpha beta\<newline>\<newline>Question: What is alpha?'')]]"
  by code_simp

text \<open>
  C6: a call that returns leaves the last 10 entries of the old history followed by the new
  pair, so at most 10 entries, in both services. From an empty history, any number of
  completed exchanges leaves the last 10 entries of their pairs; after six exchanges these
  are the pairs of the second to the sixth.
\<close>

theorem history_bounded:
  "(result (generateResponse dc net svc messages) = Inr r \<longrightarrow>
      openAIService.chatHistory (after (generateResponse dc net svc messages))
        = sliceLast 10 (openAIService.chatHistory svc
                         @ [user (content (last messages)), assistant r])
      \<and> length (openAIService.chatHistory (after (generateResponse dc net svc messages))) \<le> 10)
   \<and> (result (WebLLM_generateResponse label ok eng lsvc messages) = Inr r' \<longrightarrow>
      chatHistory (after (WebLLM_generateResponse label ok eng lsvc messages))
        = sliceLast 10 (chatHistory lsvc @ [user (content (last messages)), assistant r'])
      \<and> length (chatHistory (after (WebLLM_generateResponse label ok eng lsvc messages))) \<le> 10)
   \<and> exchanges qrs = sliceLast 10 (pairsOf qrs)
   \<and> exchanges [(q1, r1), (q2, r2), (q3, r3), (q4, r4), (q5, r5), (q6, r6)]
      = [user q2, assistant r2, user q3, assistant r3, user q4, assistant r4,
         user q5, assistant r5, user q6, assistant r6]"
proof -
  have "exchanges [(q1, r1), (q2, r2), (q3, r3), (q4, r4), (q5, r5), (q6, r6)]
      = [user q2, assistant r2, user q3, assistant r3, user q4, assistant r4,
         user q5, assistant r5, user q6, assistant r6]"
    by (simp add: exchanges_def appendExchange_def sliceLast_def user_def assistant_def)
  then show ?thesis
    using generateResponse_success [of dc net svc messages r]
      WebLLM_generateResponse_success [of label ok eng lsvc messages r']
      length_appendExchange exchanges_last_pairs [of qrs]
    by (simp add: appendExchange_sliceLast user_def assistant_def)
qed

theorem history_bounded_witness:
  "result (generateResponse exampleDeltas (OkBody exampleStream)
       (remoteService (pairsOf [(''q1'', ''a1''), (''q2'', ''a2''), (''q3'', ''a3''), (''q4'', ''a4''), (''q5'', ''a5'')]))
       [user ''q6'']) = Inr ''Hello, world''
   \<and> openAIService.chatHistory (after (generateResponse exampleDeltas (OkBody exampleStream)
       (remoteService (pairsOf [(''q1'', ''a1''), (''q2'', ''a2''), (''q3'', ''a3''), (''q4'', ''a4''), (''q5'', ''a5'')]))
       [user ''q6'']))
     = pairsOf [(''q2'', ''a2''), (''q3'', ''a3''), (''q4'', ''a4''), (''q5'', ''a5''), (''q6'', ''Hello, world'')]
   \<and> result (WebLLM_generateResponse asciiLabel quietCallback (Stream [Delta ''Hel'', Delta ''lo, '', Delta ''world''])
       (readyService (pairsOf [(''q1'', ''a1''), (''q2'', ''a2''), (''q3'', ''a3''), (''q4'', ''a4''), (''q5'', ''a5'')]))
       [user ''q6'']) = Inr ''Hello, world''
   \<and> chatHistory (after (WebLLM_generateResponse asciiLabel quietCallback (Stream [Delta ''Hel'', Delta ''lo, '', Delta ''world''])
       (readyService (pairsOf [(''q1'', ''a1''), (''q2'', ''a2''), (''q3'', ''a3''), (''q4'', ''a4''), (''q5'', ''a5'')]))
       [user ''q6'']))
     = pairsOf [(''q2'', ''a2''), (''q3'', ''a3''), (''q4'', ''a4''), (''q5'', ''a5''), (''q6'', ''Hello, world'')]"
proof -
  have a: "result (generateResponse exampleDeltas (OkBody exampleStream)
       (remoteService (pairsOf [(''q1'', ''a1''), (''q2'', ''a2''), (''q3'', ''a3''), (''q4'', ''a4''), (''q5'', ''a5'')]))
       [user ''q6'']) = Inr ''Hello, world''"
    by code_simp
  have b: "result (WebLLM_generateResponse asciiLabel quietCallback (Stream [Delta ''Hel'', Delta ''lo, '', Delta ''world''])
       (readyService (pairsOf [(''q1'', ''a1''), (''q2'', ''a2''), (''q3'', ''a3''), (''q4'', ''a4''), (''q5'', ''a5'')]))
       [user ''q6'']) = Inr ''Hello, world''"
    by code_simp
  have c: "sliceLast 10 (pairsOf [(''q1'', ''a1''), (''q2'', ''a2''), (''q3'', ''a3''), (''q4'', ''a4''), (''q5'', ''a5'')]
                          @ [user ''q6'', assistant ''Hello, world''])
       = pairsOf [(''q2'', ''a2''), (''q3'', ''a3''), (''q4'', ''a4''), (''q5'', ''a5''), (''q6'', ''Hello, world'')]"
    by (simp add: pairsOf_def sliceLast_def)
  have d: "content (last [user ''q6'']) = ''q6''"
    by (simp add: user_def)
  have e: "openAIService.chatHistory (remoteService h) = h" "chatHistory (readyService h) = h" for h
    by (simp_all add: remoteService_def readyService_def)
  show ?thesis
    using a b history_bounded
      [of exampleDeltas "OkBody exampleStream"
          "remoteService (pairsOf [(''q1'', ''a1''), (''q2'', ''a2''), (''q3'', ''a3''), (''q4'', ''a4''), (''q5'', ''a5'')])"
          "[user ''q6'']" "''Hello, world''"
          asciiLabel quietCallback "Stream [Delta ''Hel'', Delta ''lo, '', Delta ''world'']"
          "readyService (pairsOf [(''q1'', ''a1''), (''q2'', ''a2''), (''q3'', ''a3''), (''q4'', ''a4''), (''q5'', ''a5'')])"
          "''Hello, world''"]
    unfolding d e c by blast
qed

text \<open>
  Six questions in a row on a service that has just been given its document: the first pair
  is gone, the other five remain.
\<close>

lemma six_exchanges:
  "openAIService.chatHistory
     (foldl ask (setDocument exampleDocument \<lparr>openAIService.document = None, chatHistory = []\<rparr>)
        [''q1'', ''q2'', ''q3'', ''q4'', ''q5'', ''q6''])
   = pairsOf [(''q2'', ''Hello, world''), (''q3'', ''Hello, world''), (''q4'', ''Hello, world''),
              (''q5'', ''Hello, world''), (''q6'', ''Hello, world'')]"
  "chatHistory
     (foldl askLocal (WebLLM_setDocument exampleDocument
         \<lparr>engine = True, isInitialized = True, document = None, chatHistory = []\<rparr>)
        [''q1'', ''q2'', ''q3'', ''q4'', ''q5'', ''q6''])
   = pairsOf [(''q2'', ''Hello, world''), (''q3'', ''Hello, world''), (''q4'', ''Hello, world''),
              (''q5'', ''Hello, world''), (''q6'', ''Hello, world'')]"
  by code_simp+

text \<open>
  C7, as the code has it: on a service without a document the call fails before anything is
  handed to the transport; the error is "document not set" in the remote service and in a local
  service that is initialized, and "model not loaded" in a local service that is not.
\<close>

theorem generateResponse_without_document:
  "(openAIService.document svc = None \<longrightarrow>
      result (generateResponse dc net svc messages) = Inl DocumentNotSet
      \<and> requests (generateResponse dc net svc messages) = [])
   \<and> (document lsvc = None \<longrightarrow>
      result (WebLLM_generateResponse label ok eng lsvc messages)
        = Inl (if isInitialized lsvc \<and> engine lsvc then DocumentNotSet else ModelNotLoaded)
      \<and> requests (WebLLM_generateResponse label ok eng lsvc messages) = [])"
  by (simp add: generateResponse_def WebLLM_generateResponse_def)

theorem generateResponse_without_document_witness:
  "openAIService.document \<lparr>openAIService.document = None, chatHistory = []\<rparr> = None
   \<and> result (generateResponse exampleDeltas (OkBody exampleStream)
        \<lparr>openAIService.document = None, chatHistory = []\<rparr> [user ''What is alpha?''])
      = Inl DocumentNotSet
   \<and> requests (generateResponse exampleDeltas (OkBody exampleStream)
        \<lparr>openAIService.document = None, chatHistory = []\<rparr> [user ''What is alpha?'']) = []
   \<and> document \<lparr>engine = True, isInitialized = True, document = None, chatHistory = []\<rparr> = None
   \<and> result (WebLLM_generateResponse asciiLabel quietCallback (Stream [Delta ''Hel''])
        \<lparr>engine = True, isInitialized = True, document = None, chatHistory = []\<rparr>
        [user ''What is alpha?''])
      = Inl DocumentNotSet
   \<and> requests (WebLLM_generateResponse asciiLabel quietCallback (Stream [Delta ''Hel''])
        \<lparr>engine = True, isInitialized = True, document = None, chatHistory = []\<rparr>
        [user ''What is alpha?'']) = []"
  using generateResponse_without_document
    [of "\<lparr>openAIService.document = None, chatHistory = []\<rparr>" exampleDeltas "OkBody exampleStream"
        "[user ''What is alpha?'']"
        "\<lparr>engine = True, isInitialized = True, document = None, chatHistory = []\<rparr>"
        asciiLabel quietCallback "Stream [Delta ''Hel'']"]
  by simp

text \<open>
  C7 as stated fails: a local service that has neither a model nor a document reports the
  missing model.
\<close>

theorem uninitialized_local_service_without_document:
  "document \<lparr>engine = False, isInitialized = False, document = None, chatHistory = []\<rparr> = None
   \<and> result (WebLLM_generateResponse asciiLabel quietCallback (Stream [Delta ''Hel''])
        \<lparr>engine = False, isInitialized = False, document = None, chatHistory = []\<rparr>
        [user ''What is alpha?''])
      = Inl ModelNotLoaded
   \<and> result (WebLLM_generateResponse asciiLabel quietCallback (Stream [Delta ''Hel''])
        \<lparr>engine = False, isInitialized = False, document = None, chatHistory = []\<rparr>
        [user ''What is alpha?''])
      \<noteq> Inl DocumentNotSet"
  by (simp add: WebLLM_generateResponse_def)

text \<open>
  C8: the string a call returns is the concatenation of the fragments it passed to
  \<open>onUpdate\<close>, in both services; a stream with the deltas "Hel", "lo, " and "world" passes these
  three fragments and returns "Hello, world".
\<close>

theorem generateResponse_returns_deltas:
  "(result (generateResponse dc net svc messages) = Inr r \<longrightarrow>
      r = concat (updates (generateResponse dc net svc messages)))
   \<and> (result (WebLLM_generateResponse label ok eng lsvc messages) = Inr r' \<longrightarrow>
      r' = concat (updates (WebLLM_generateResponse label ok eng lsvc messages)))
   \<and> updates (generateResponse exampleDeltas (OkBody exampleStream)
        \<lparr>openAIService.document = Some exampleDocument, chatHistory = []\<rparr> [user ''What is alpha?''])
      = [''Hel'', ''lo, '', ''world'']
   \<and> result (generateResponse exampleDeltas (OkBody exampleStream)
        \<lparr>openAIService.document = Some exampleDocument, chatHistory = []\<rparr> [user ''What is alpha?''])
      = Inr ''Hello, world''
   \<and> updates (WebLLM_generateResponse asciiLabel quietCallback
        (Stream [Delta ''Hel'', Delta ''lo, '', Delta ''world''])
        \<lparr>engine = True, isInitialized = True, document = Some exampleDocument, chatHistory = []\<rparr>
        [user ''What is alpha?''])
      = [''Hel'', ''lo, '', ''world'']
   \<and> result (WebLLM_generateResponse asciiLabel quietCallback
        (Stream [Delta ''Hel'', Delta ''lo, '', Delta ''world''])
        \<lparr>engine = True, isInitialized = True, document = Some exampleDocument, chatHistory = []\<rparr>
        [user ''What is alpha?''])
      = Inr ''Hello, world''"
proof -
  have "updates (generateResponse exampleDeltas (OkBody exampleStream)
        \<lparr>openAIService.document = Some exampleDocument, chatHistory = []\<rparr> [user ''What is alpha?''])
      = [''Hel'', ''lo, '', ''world'']"
    by code_simp
  moreover have "result (generateResponse exampleDeltas (OkBody exampleStream)
        \<lparr>openAIService.document = Some exampleDocument, chatHistory = []\<rparr> [user ''What is alpha?''])
      = Inr ''Hello, world''"
    by code_simp
  moreover have "updates (WebLLM_generateResponse asciiLabel quietCallback
        (Stream [Delta ''Hel'', Delta ''lo, '', Delta ''world''])
        \<lparr>engine = True, isInitialized = True, document = Some exampleDocument, chatHistory = []\<rparr>
        [user ''What is alpha?''])
      = [''Hel'', ''lo, '', ''world'']"
    by code_simp
  moreover have "result (WebLLM_generateResponse asciiLabel quietCallback
        (Stream [Delta ''Hel'', Delta ''lo, '', Delta ''world''])
        \<lparr>engine = True, isInitialized = True, document = Some exampleDocument, chatHistory = []\<rparr>
        [user ''What is alpha?''])
      = Inr ''Hello, world''"
    by code_simp
  ultimately show ?thesis
    using generateResponse_concat WebLLM_generateResponse_concat by blast
qed

theorem generateResponse_returns_deltas_witness:
  "result (generateResponse exampleDeltas (OkBody exampleStream) (remoteService []) [user ''What is alpha?''])
     = Inr ''Hello, world''
   \<and> ''Hello, world'' = concat (updates (generateResponse exampleDeltas (OkBody exampleStream)
        (remoteService []) [user ''What is alpha?'']))
   \<and> result (WebLLM_generateResponse asciiLabel quietCallback
        (Stream [Delta ''Hel'', Delta [], Delta ''lo, '', Delta ''world'']) (readyService [])
        [user ''What is alpha?''])
     = Inr ''Hello, world''
   \<and> ''Hello, world'' = concat (updates (WebLLM_generateResponse asciiLabel quietCallback
        (Stream [Delta ''Hel'', Delta [], Delta ''lo, '', Delta ''world'']) (readyService [])
        [user ''What is alpha?'']))"
proof -
  have a: "result (generateResponse exampleDeltas (OkBody exampleStream) (remoteService []) [user ''What is alpha?''])
     = Inr ''Hello, world''"
    by code_simp
  have b: "result (WebLLM_generateResponse asciiLabel quietCallback
        (Stream [Delta ''Hel'', Delta [], Delta ''lo, '', Delta ''world'']) (readyService [])
        [user ''What is alpha?''])
     = Inr ''Hello, world''"
    by code_simp
  show ?thesis
    using a b generateResponse_returns_deltas
      [of exampleDeltas "OkBody exampleStream" "remoteService []" "[user ''What is alpha?'']"
          "''Hello, world''" asciiLabel quietCallback
          "Stream [Delta ''Hel'', Delta [], Delta ''lo, '', Delta ''world'']" "readyService []"
          "''Hello, world''"]
    by blast
qed

text \<open>
  C9: a call that throws leaves the service as it was, its history included, in both
  services.
\<close>

theorem generateResponse_failure_keeps_history:
  "(result (generateResponse dc net svc messages) = Inl e \<longrightarrow>
      after (generateResponse dc net svc messages) = svc
      \<and> openAIService.chatHistory (after (generateResponse dc net svc messages))
          = openAIService.chatHistory svc)
   \<and> (result (WebLLM_generateResponse label ok eng lsvc messages) = Inl e' \<longrightarrow>
      after (WebLLM_generateResponse label ok eng lsvc messages) = lsvc
      \<and> chatHistory (after (WebLLM_generateResponse label ok eng lsvc messages))
          = chatHistory lsvc)"
  using generateResponse_failure [of dc net svc messages e]
    WebLLM_generateResponse_failure [of label ok eng lsvc messages e']
  by simp

theorem generateResponse_failure_keeps_history_witness:
  "result (generateResponse exampleDeltas
       (OkBody [Value ''data: {\"choices\":[{\"delta\":{\"content\":\"Hel\"}}]}\<newline>\<newline>'', ReadRejects])
       (remoteService [user ''q1'', assistant ''a1'']) [user ''What is alpha?''])
     = Inl ReadRejected
   \<and> openAIService.chatHistory (after (generateResponse exampleDeltas
       (OkBody [Value ''data: {\"choices\":[{\"delta\":{\"content\":\"Hel\"}}]}\<newline>\<newline>'', ReadRejects])
       (remoteService [user ''q1'', assistant ''a1'']) [user ''What is alpha?'']))
     = openAIService.chatHistory (remoteService [user ''q1'', assistant ''a1''])
   \<and> result (WebLLM_generateResponse asciiLabel quietCallback (Stream [Delta ''Hel'', ItemThrows])
       (readyService [user ''q1'', assistant ''a1'']) [user ''What is alpha?''])
     = Inl GenerationFailed
   \<and> chatHistory (after (WebLLM_generateResponse asciiLabel quietCallback (Stream [Delta ''Hel'', ItemThrows])
       (readyService [user ''q1'', assistant ''a1'']) [user ''What is alpha?'']))
     = chatHistory (readyService [user ''q1'', assistant ''a1''])"
proof -
  have a: "result (generateResponse exampleDeltas
       (OkBody [Value ''data: {\"choices\":[{\"delta\":{\"content\":\"Hel\"}}]}\<newline>\<newline>'', ReadRejects])
       (remoteService [user ''q1'', assistant ''a1'']) [user ''What is alpha?''])
     = Inl ReadRejected"
    by code_simp
  have b: "result (WebLLM_generateResponse asciiLabel quietCallback (Stream [Delta ''Hel'', ItemThrows])
       (readyService [user ''q1'', assistant ''a1'']) [user ''What is alpha?''])
     = Inl GenerationFailed"
    by code_simp
  show ?thesis
    using a b generateResponse_failure_keeps_history
      [of exampleDeltas
          "OkBody [Value ''data: {\"choices\":[{\"delta\":{\"content\":\"Hel\"}}]}\<newline>\<newline>'', ReadRejects]"
          "remoteService [user ''q1'', assistant ''a1'']" "[user ''What is alpha?'']" ReadRejected
          asciiLabel quietCallback "Stream [Delta ''Hel'', ItemThrows]"
          "readyService [user ''q1'', assistant ''a1'']" GenerationFailed]
    by blast
qed


end
